theory Spec2Isabelle
  imports Main "HOL-Library.Char_ord" "HOL-Library.List_Lexorder"
begin

section \<open>RegionFree YouTube Downloader: utility functions\<close>

subsection \<open>Filename sanitizer\<close>

text \<open>
  \<^verbatim>\<open>
  def sanitize_filename(name: str) -> str:
      name = re.sub(r'[\\/:*?"<>|\n\r\t]', "", name)
      return name.replace(" ", "_")
  \<close>
  The character class of the regular expression, one character per entry: backslash, slash,
  colon, asterisk, question mark, double quote, the two angle brackets, pipe, newline,
  carriage return and tab.
\<close>

definition forbidden :: "char set" where
  "forbidden = {CHR 0x5C, CHR ''/'', CHR '':'', CHR ''*'', CHR ''?'', CHR 0x22,
                CHR ''<'', CHR ''>'', CHR ''|'', CHR 0x0A, CHR 0x0D, CHR 0x09}"

definition space_to_underscore :: "char \<Rightarrow> char" where
  "space_to_underscore c = (if c = CHR '' '' then CHR ''_'' else c)"

definition sanitize_filename :: "string \<Rightarrow> string" where
  "sanitize_filename name =
     map space_to_underscore (filter (\<lambda>c. c \<notin> forbidden) name)"

subsection \<open>Errors\<close>

text \<open>
  The exceptions the modelled code can raise, as values. \<open>Stalled label timeout\<close> stands for
  \<^verbatim>\<open>RuntimeError(f"{label} stalled for {timeout} seconds")\<close>: its two fields are the two
  values the message is built from. \<open>RuntimeError msg\<close> is every other explicit
  \<^verbatim>\<open>raise RuntimeError(msg)\<close>. The remaining constructors are the exceptions of the library
  calls: \<open>ValueError\<close> from \<^verbatim>\<open>int()\<close>, \<open>IndexError\<close> from indexing an empty list,
  \<open>RequestError\<close> from \<^verbatim>\<open>requests\<close> (connection failure, timeout, a non-2xx status in
  \<^verbatim>\<open>raise_for_status\<close>, an undecodable JSON body), \<open>OSError\<close> from the file system and from
  \<^verbatim>\<open>subprocess\<close>, \<open>FetcherError\<close> from the external media fetcher.
\<close>

datatype error =
    Stalled string int
  | RuntimeError string
  | ValueError
  | IndexError
  | RequestError
  | OSError
  | FetcherError

subsection \<open>Version selection of the dependency materializer\<close>

text \<open>
  \<^verbatim>\<open>
  versions = [
      v for v in re.findall(r'href="([0-9.]+)/"', html) if "a" not in v
  ]
  versions.sort(key=lambda s: list(map(int, s.split("."))))
  latest = versions[-1]
  \<close>
  The model starts from the list \<^verbatim>\<open>re.findall\<close> returns: strings over the digits and the dot.
\<close>

text \<open>\<^verbatim>\<open>s.split(".")\<close>: the pieces between the separators; never the empty list.\<close>

fun split_on :: "char \<Rightarrow> string \<Rightarrow> string list" where
  "split_on d [] = [[]]"
| "split_on d (c # cs) =
     (if c = d then [] # split_on d cs
      else (case split_on d cs of
              p # ps \<Rightarrow> (c # p) # ps
            | [] \<Rightarrow> [[c]]))"

definition is_digit :: "char \<Rightarrow> bool" where
  "is_digit c \<longleftrightarrow> CHR ''0'' \<le> c \<and> c \<le> CHR ''9''"

definition digit_value :: "char \<Rightarrow> int" where
  "digit_value c = int (of_char c) - 48"

text \<open>
  \<^verbatim>\<open>int(s)\<close> on a piece of a string of digits and dots: the piece holds digits only, and the
  empty piece raises \<^verbatim>\<open>ValueError\<close>. Python's integers are unbounded (the limit the
  interpreter puts on the number of digits of a decimal string is not modelled).
\<close>

definition py_int :: "string \<Rightarrow> error + int" where
  "py_int s =
     (if s = [] \<or> \<not> list_all is_digit s then Inl ValueError
      else Inr (foldl (\<lambda>a c. 10 * a + digit_value c) 0 s))"

text \<open>\<^verbatim>\<open>list(map(int, pieces))\<close>: the first piece that does not convert raises.\<close>

fun map_int :: "string list \<Rightarrow> error + int list" where
  "map_int [] = Inr []"
| "map_int (p # ps) =
     (case py_int p of
        Inl e \<Rightarrow> Inl e
      | Inr n \<Rightarrow> (case map_int ps of Inl e \<Rightarrow> Inl e | Inr ns \<Rightarrow> Inr (n # ns)))"

text \<open>The sort key \<^verbatim>\<open>lambda s: list(map(int, s.split(".")))\<close>.\<close>

definition version_key :: "string \<Rightarrow> error + int list" where
  "version_key s = map_int (split_on CHR ''.'' s)"

definition key_of :: "string \<Rightarrow> int list" where
  "key_of s = (case version_key s of Inr k \<Rightarrow> k | Inl e \<Rightarrow> [])"

text \<open>
  \<^verbatim>\<open>list.sort(key=...)\<close> computes the key of every element (an exception of the key function
  leaves the sort), then sorts stably in ascending order of the keys; Python compares lists
  of integers lexicographically, a proper prefix being smaller, which is the order of
  \<open>int list\<close> here. \<^verbatim>\<open>versions[-1]\<close> raises \<^verbatim>\<open>IndexError\<close> on the empty list.
\<close>

definition select_latest :: "string list \<Rightarrow> error + string" where
  "select_latest found =
     (let versions = filter (\<lambda>v. CHR ''a'' \<notin> set v) found in
      if list_ex (\<lambda>v. isl (version_key v)) versions then Inl ValueError
      else
        (let sorted_versions = sort_key key_of versions in
         if sorted_versions = [] then Inl IndexError
         else Inr (last sorted_versions)))"

text \<open>A dotted-numeric version string: non-empty runs of digits separated by single dots.\<close>

definition dotted_numeric :: "string \<Rightarrow> bool" where
  "dotted_numeric v \<longleftrightarrow> list_all (\<lambda>p. p \<noteq> [] \<and> list_all is_digit p) (split_on CHR ''.'' v)"

section \<open>Stall-watchdog transfer\<close>

text \<open>
  \<^verbatim>\<open>download_with_watchdog(url, dest_path, label, timeout, chunk_size)\<close> streams a response
  body into a file. What the outside world does is an input of the model:
  \<^item> \<open>http_get url\<close> is what \<^verbatim>\<open>requests.get(url, stream=True, timeout=timeout)\<close> does: it
    raises, or it returns a response;
  \<^item> \<open>status_ok\<close> says whether \<^verbatim>\<open>r.raise_for_status()\<close> passes, \<open>content_length\<close> is
    \<^verbatim>\<open>int(r.headers.get("content-length", 0))\<close>, which raises on a malformed header;
  \<^item> \<open>body\<close> is what the iterator \<^verbatim>\<open>r.iter_content(chunk_size=chunk_size)\<close> does, one item
    per iteration of the loop: \<open>Chunk data now\<close> yields the bytes \<open>data\<close>, and \<open>now\<close> is the
    reading of \<^verbatim>\<open>time.time()\<close> taken in that iteration (in the stall test when the chunk is
    empty, after the write when it is not); \<open>Broken e\<close> is the iterator raising;
  \<^item> \<open>clock0\<close> is the first reading of \<^verbatim>\<open>time.time()\<close>, taken before the request is sent;
  \<^item> \<open>can_open path\<close> says whether \<^verbatim>\<open>open(path, "wb")\<close> succeeds.
  Clock readings and the timeout are exact numbers of one unit (the floating point of
  \<^verbatim>\<open>time.time()\<close> is not modelled). Writing to the open file is taken to succeed. The
  progress line printed after each chunk changes neither the file nor the result and is left
  out; \<^verbatim>\<open>chunk_size\<close> only decides how the iterator cuts the body.

  The loop is modelled for every list of items, as the source is written. The iterator of
  the HTTP library, however, never yields an empty chunk (it passes on what it has read only
  when that is non-empty), and a read that gets no byte within the read timeout, which
  \<^verbatim>\<open>timeout=timeout\<close> sets, raises inside the iterator. The bodies the program can receive
  are the \<open>receivable\<close> ones defined below.
\<close>

datatype item = Chunk string int | Broken error

record response =
  status_ok :: bool
  content_length :: "error + int"
  body :: "item list"

record transfer_env =
  http_get :: "string \<Rightarrow> error + response"
  clock0 :: int
  can_open :: "string \<Rightarrow> bool"

text \<open>
  The loop, with its two variables: \<open>last_data_time\<close> and the bytes written so far.
  \<^verbatim>\<open>
  for chunk in r.iter_content(chunk_size=chunk_size):
      if not chunk:
          if time.time() - last_data_time > timeout:
              raise RuntimeError(f"{label} stalled for {timeout} seconds")
          continue
      f.write(chunk)
      downloaded += len(chunk)
      last_data_time = time.time()
  \<close>
\<close>

fun watchdog_loop ::
  "string \<Rightarrow> int \<Rightarrow> item list \<Rightarrow> int \<Rightarrow> string \<Rightarrow> (error + unit) \<times> string" where
  "watchdog_loop label timeout [] last_data_time written = (Inr (), written)"
| "watchdog_loop label timeout (Broken e # rest) last_data_time written = (Inl e, written)"
| "watchdog_loop label timeout (Chunk chunk now # rest) last_data_time written =
     (if chunk = [] then
        (if now - last_data_time > timeout then (Inl (Stalled label timeout), written)
         else watchdog_loop label timeout rest last_data_time written)
      else watchdog_loop label timeout rest now (written @ chunk))"

text \<open>
  The whole call. The file system maps a path to the content of the file there;
  \<^verbatim>\<open>open(dest_path, "wb")\<close> creates or truncates the file, so at the end it holds what the
  loop wrote, whether the loop ended normally or by an exception.
\<close>

definition download_with_watchdog ::
  "transfer_env \<Rightarrow> string \<Rightarrow> string \<Rightarrow> string \<Rightarrow> int \<Rightarrow> (string \<rightharpoonup> string)
     \<Rightarrow> (error + unit) \<times> (string \<rightharpoonup> string)" where
  "download_with_watchdog env url dest_path label timeout fs =
     (let last_data_time = clock0 env in
      case http_get env url of
        Inl e \<Rightarrow> (Inl e, fs)
      | Inr r \<Rightarrow>
          if \<not> status_ok r then (Inl RequestError, fs)
          else
            (case content_length r of
               Inl e \<Rightarrow> (Inl e, fs)
             | Inr total_bytes \<Rightarrow>
                 if \<not> can_open env dest_path then (Inl OSError, fs)
                 else
                   (case watchdog_loop label timeout (body r) last_data_time [] of
                      (result, written) \<Rightarrow> (result, fs(dest_path \<mapsto> written)))))"

text \<open>The non-empty chunks of a body, in the order received.\<close>

fun received :: "item list \<Rightarrow> string list" where
  "received [] = []"
| "received (Chunk chunk now # rest) =
     (if chunk = [] then received rest else chunk # received rest)"
| "received (Broken e # rest) = received rest"

text \<open>An item that yields bytes, as opposed to a raising iterator.\<close>

fun is_chunk :: "item \<Rightarrow> bool" where
  "is_chunk (Chunk chunk now) = True"
| "is_chunk (Broken e) = False"

text \<open>
  What the iterator of the HTTP library can do in one iteration: yield a non-empty chunk, or
  raise. A body the program can receive is a list of such items.
\<close>

fun nonempty_item :: "item \<Rightarrow> bool" where
  "nonempty_item (Chunk chunk now) = (chunk \<noteq> [])"
| "nonempty_item (Broken e) = True"

definition receivable :: "item list \<Rightarrow> bool" where
  "receivable items = list_all nonempty_item items"

text \<open>The error of the stall watchdog, among the results of a call.\<close>

fun is_stall :: "error + unit \<Rightarrow> bool" where
  "is_stall (Inl (Stalled label timeout)) = True"
| "is_stall result = False"

section \<open>Proxy process supervisor\<close>

text \<open>
  What the program does to the outside world is recorded as a trace of events, in the order
  of the calls: the lines it prints, the signals it sends to a process, the temporary
  configuration files it writes and removes, the processes it launches, the identity probe
  and the call of the external media fetcher.
\<close>

datatype message =
    Trying string
  | NotReady
  | TorIP string string
  | Succeeded
  | FailedVia string error
  | AllFailed

text \<open>
  The messages are the \<^verbatim>\<open>print\<close> calls of \<^verbatim>\<open>download_video\<close> and \<^verbatim>\<open>test_tor_connection\<close>:
  \<open>Trying c\<close> is \<^verbatim>\<open>"\nTrying Tor exit node: {country.upper()}"\<close>, \<open>NotReady\<close> is
  \<^verbatim>\<open>"Tor failed to start, trying next country"\<close>, \<open>TorIP ip flag\<close> is
  \<^verbatim>\<open>"Tor IP: {IP} | IsTor: {IsTor}"\<close>, \<open>Succeeded\<close> is \<^verbatim>\<open>"Download succeeded!"\<close>,
  \<open>FailedVia c e\<close> is \<^verbatim>\<open>"Failed via {country.upper()}: {e}"\<close> and \<open>AllFailed\<close> is
  \<^verbatim>\<open>"All Tor exit nodes failed."\<close>.
\<close>

datatype event =
    Print message
  | Terminate nat
  | Kill nat
  | Remove nat
  | WriteTorrc nat string
  | Launch nat nat
  | Probe
  | Fetch string

text \<open>
  \<open>Terminate p\<close> and \<open>Kill p\<close> are \<^verbatim>\<open>tor_process.terminate()\<close> and \<^verbatim>\<open>tor_process.kill()\<close> on the
  process \<open>p\<close>; \<open>Remove f\<close> is \<^verbatim>\<open>os.remove(torrc_path)\<close>; \<open>WriteTorrc f c\<close> is the temporary
  file \<open>f\<close> written with the exit selector of country \<open>c\<close>; \<open>Launch p f\<close> is
  \<^verbatim>\<open>subprocess.Popen([tor_path, "-f", torrc_path])\<close> giving process \<open>p\<close>; \<open>Probe\<close> is the request
  of \<^verbatim>\<open>test_tor_connection\<close>; \<open>Fetch url\<close> is \<^verbatim>\<open>ydl.download([url])\<close>.

  The state: the three globals \<^verbatim>\<open>tor_process\<close>, \<^verbatim>\<open>torrc_path\<close>, \<^verbatim>\<open>tor_started_by_us\<close> (a process
  handle is the number of its process, a path is the number of its temporary file, \<^verbatim>\<open>None\<close>
  is \<open>None\<close>), the processes that are running (those for which \<^verbatim>\<open>poll()\<close> is \<^verbatim>\<open>None\<close>), the
  temporary files that exist, the numbers the next process and the next temporary file will
  get (\<^verbatim>\<open>NamedTemporaryFile\<close> gives a name not used before), and the trace.
\<close>

record world =
  tor_process :: "nat option"
  torrc_path :: "nat option"
  tor_started_by_us :: bool
  running :: "nat set"
  files :: "nat set"
  next_pid :: nat
  next_tmp :: nat
  trace :: "event list"

text \<open>
  The answers of the outside world. Those of one attempt are indexed by the country of the
  attempt.
  \<^item> \<open>graceful p\<close>: \<^verbatim>\<open>tor_process.wait(timeout=5)\<close> returns, the process \<open>p\<close> having exited
    within the grace period (otherwise the call raises and the handler kills the process);
  \<^item> \<open>ensure_ffmpeg\<close>: the result of \<^verbatim>\<open>ensure_ffmpeg()\<close>, a path or an exception;
  \<^item> \<open>ensure_tor_files c\<close>: the result of \<^verbatim>\<open>ensure_tor_files()\<close>, a path or an exception;
  \<^item> \<open>path_exists path\<close>: \<^verbatim>\<open>os.path.exists(tor_path)\<close>;
  \<^item> \<open>popen c\<close>: whether \<^verbatim>\<open>subprocess.Popen\<close> starts the process (it raises otherwise);
  \<^item> \<open>wait_for_tor c\<close>: the result of \<^verbatim>\<open>wait_for_tor()\<close>, the polling of the proxy port
    for at most 40 seconds;
  \<^item> \<open>exits c\<close>: whether the process launched for \<open>c\<close> exits on its own while the program
    waits for the proxy (as a proxy that cannot bind its port does), so that
    \<^verbatim>\<open>tor_process.poll()\<close> is no longer \<^verbatim>\<open>None\<close> afterwards;
  \<^item> \<open>probe c\<close>: what \<^verbatim>\<open>requests.get("https://check.torproject.org/api/ip", ...)\<close> does: it
    raises, or it returns \<open>Reply ok json\<close> with \<^verbatim>\<open>r.ok\<close> and the result of \<^verbatim>\<open>r.json()\<close>, the
    two fields read from it or an exception;
  \<^item> \<open>fetcher c url\<close>: what the body of the \<^verbatim>\<open>try\<close> block does, the construction of
    \<^verbatim>\<open>yt_dlp.YoutubeDL(ydl_opts)\<close> and \<^verbatim>\<open>ydl.download([url])\<close>.
\<close>

datatype reply = Reply bool "error + string \<times> string"

record env =
  graceful :: "nat \<Rightarrow> bool"
  ensure_ffmpeg :: "error + string"
  ensure_tor_files :: "string \<Rightarrow> error + string"
  path_exists :: "string \<Rightarrow> bool"
  popen :: "string \<Rightarrow> bool"
  wait_for_tor :: "string \<Rightarrow> bool"
  exits :: "string \<Rightarrow> bool"
  probe :: "string \<Rightarrow> error + reply"
  fetcher :: "string \<Rightarrow> string \<Rightarrow> error + unit"

definition emit :: "event \<Rightarrow> world \<Rightarrow> world" where
  "emit e w = w\<lparr>trace := trace w @ [e]\<rparr>"

text \<open>
  \<^verbatim>\<open>
  def terminate_tor_process():
      global tor_process, torrc_path, tor_started_by_us
      if tor_process and tor_process.poll() is None and tor_started_by_us:
          tor_process.terminate()
          try:
              tor_process.wait(timeout=5)
          except Exception:
              tor_process.kill()
      tor_process = None
      tor_started_by_us = False
      if torrc_path and os.path.exists(torrc_path):
          os.remove(torrc_path)
          torrc_path = None
  \<close>
  A process that was sent the signal and waited for, or killed, no longer runs.
  \<^verbatim>\<open>terminate()\<close>, \<^verbatim>\<open>kill()\<close> and \<^verbatim>\<open>os.remove\<close> after the test of existence are taken to succeed.
\<close>

definition stop_process :: "env \<Rightarrow> world \<Rightarrow> world" where
  "stop_process env w =
     (case tor_process w of
        None \<Rightarrow> w
      | Some p \<Rightarrow>
          if p \<in> running w \<and> tor_started_by_us w then
            (if graceful env p
             then emit (Terminate p) (w\<lparr>running := running w - {p}\<rparr>)
             else emit (Kill p) (emit (Terminate p) (w\<lparr>running := running w - {p}\<rparr>)))
          else w)"

definition remove_torrc :: "world \<Rightarrow> world" where
  "remove_torrc w =
     (case torrc_path w of
        None \<Rightarrow> w
      | Some f \<Rightarrow>
          if f \<in> files w
          then emit (Remove f) (w\<lparr>files := files w - {f}, torrc_path := None\<rparr>)
          else w)"

definition terminate_tor_process :: "env \<Rightarrow> world \<Rightarrow> world" where
  "terminate_tor_process env w =
     remove_torrc ((stop_process env w)\<lparr>tor_process := None, tor_started_by_us := False\<rparr>)"

text \<open>
  \<^verbatim>\<open>
  def start_tor_process(country_code: str):
      global tor_process, torrc_path, tor_started_by_us
      terminate_tor_process()
      tor_path = ensure_tor_files()
      if not os.path.exists(tor_path):
          raise RuntimeError(f"Tor executable not found at {tor_path}")
      torrc_content = f"""... ExitNodes {{{country_code}}} """
      with tempfile.NamedTemporaryFile("w", delete=False, suffix=".torrc") as f:
          f.write(torrc_content)
          torrc_path = f.name
      tor_process = subprocess.Popen([tor_path, "-f", torrc_path], ...)
      tor_started_by_us = True
  \<close>
  Creating and writing the temporary file is taken to succeed.
\<close>

definition start_tor_process :: "env \<Rightarrow> string \<Rightarrow> world \<Rightarrow> (error + unit) \<times> world" where
  "start_tor_process env country_code w =
     (let w1 = terminate_tor_process env w in
      case ensure_tor_files env country_code of
        Inl e \<Rightarrow> (Inl e, w1)
      | Inr tor_path \<Rightarrow>
          if \<not> path_exists env tor_path
          then (Inl (RuntimeError (''Tor executable not found at '' @ tor_path)), w1)
          else
            (let f = next_tmp w1;
                 w2 = emit (WriteTorrc f country_code)
                        (w1\<lparr>files := insert f (files w1), torrc_path := Some f,
                            next_tmp := Suc f\<rparr>)
             in if \<not> popen env country_code then (Inl OSError, w2)
                else
                  (let p = next_pid w2
                   in (Inr (),
                       emit (Launch p f)
                         (w2\<lparr>tor_process := Some p, running := insert p (running w2),
                             next_pid := Suc p, tor_started_by_us := True\<rparr>)))))"

text \<open>The signals among the events of a trace.\<close>

fun is_signal :: "event \<Rightarrow> bool" where
  "is_signal (Terminate p) = True"
| "is_signal (Kill p) = True"
| "is_signal e = False"

text \<open>
  The processes this orchestrator has launched, read off the trace, and those of them that
  still run: the live proxy processes of the orchestrator.
\<close>

fun launched :: "event list \<Rightarrow> nat set" where
  "launched [] = {}"
| "launched (Launch p f # es) = insert p (launched es)"
| "launched (e # es) = launched es"

definition live_proxies :: "world \<Rightarrow> nat set" where
  "live_proxies w = launched (trace w) \<inter> running w"

text \<open>
  The states the supervisor can be in: a launched process that still runs is the one in the
  handle, and a handle is only ever set together with the flag (the two assignments at the
  end of \<^verbatim>\<open>start_tor_process\<close>; \<^verbatim>\<open>terminate_tor_process\<close> resets both).
\<close>

definition supervised :: "world \<Rightarrow> bool" where
  "supervised w \<longleftrightarrow>
     live_proxies w \<subseteq> set_option (tor_process w)
     \<and> (tor_process w = None \<or> tor_started_by_us w)"

section \<open>Egress rotation controller\<close>

definition SAFE_COUNTRIES :: "string list" where
  "SAFE_COUNTRIES = [''se'', ''ch'', ''nl'', ''is'', ''no'', ''fi'', ''dk'', ''de'']"

text \<open>
  \<^verbatim>\<open>
  def test_tor_connection():
      r = requests.get("https://check.torproject.org/api/ip", proxies=proxies, timeout=10)
      if r.ok:
          data = r.json()
          print(f"Tor IP: {data.get('IP')} | IsTor: {data.get('IsTor')}")
  \<close>
\<close>

definition test_tor_connection :: "env \<Rightarrow> string \<Rightarrow> world \<Rightarrow> (error + unit) \<times> world" where
  "test_tor_connection env country w =
     (let w1 = emit Probe w in
      case probe env country of
        Inl e \<Rightarrow> (Inl e, w1)
      | Inr (Reply ok json) \<Rightarrow>
          if ok then
            (case json of
               Inl e \<Rightarrow> (Inl e, w1)
             | Inr (ip, is_tor) \<Rightarrow> (Inr (), emit (Print (TorIP ip is_tor)) w1))
          else (Inr (), w1))"

text \<open>
  The loop of \<^verbatim>\<open>download_video\<close> over the candidates that are left, and the line after it.
  \<^verbatim>\<open>
  for country in SAFE_COUNTRIES:
      print(f"\nTrying Tor exit node: {country.upper()}")
      start_tor_process(country)
      if not wait_for_tor():
          print("Tor failed to start, trying next country")
          continue
      test_tor_connection()
      try:
          with yt_dlp.YoutubeDL(ydl_opts) as ydl:
              ydl.download([url])
          print("Download succeeded!")
          return
      except Exception as e:
          print(f"Failed via {country.upper()}: {e}")
  print("All Tor exit nodes failed.")
  \<close>
  The function returns \<^verbatim>\<open>None\<close> at the \<^verbatim>\<open>return\<close> and at its end: \<open>Inr ()\<close> both times. An
  exception that leaves the function is \<open>Inl\<close>.

  While the program waits in \<^verbatim>\<open>wait_for_tor()\<close>, the process just launched keeps running or
  exits on its own, as the outside world decides: \<open>elapse\<close> is that step of the world. It is
  no action of the program and adds nothing to the trace.
\<close>

definition elapse :: "env \<Rightarrow> string \<Rightarrow> world \<Rightarrow> world" where
  "elapse env country w =
     (if exits env country then w\<lparr>running := running w - set_option (tor_process w)\<rparr>
      else w)"

fun rotation_loop :: "env \<Rightarrow> string \<Rightarrow> string list \<Rightarrow> world \<Rightarrow> (error + unit) \<times> world" where
  "rotation_loop env url [] w = (Inr (), emit (Print AllFailed) w)"
| "rotation_loop env url (country # rest) w =
     (case start_tor_process env country (emit (Print (Trying country)) w) of
        (Inl e, w1) \<Rightarrow> (Inl e, w1)
      | (Inr u, w1) \<Rightarrow>
          if \<not> wait_for_tor env country
          then rotation_loop env url rest (emit (Print NotReady) (elapse env country w1))
          else
            (case test_tor_connection env country (elapse env country w1) of
               (Inl e, w2) \<Rightarrow> (Inl e, w2)
             | (Inr u, w2) \<Rightarrow>
                 (case fetcher env country url of
                    Inr u \<Rightarrow> (Inr (), emit (Print Succeeded) (emit (Fetch url) w2))
                  | Inl e \<Rightarrow>
                      rotation_loop env url rest
                        (emit (Print (FailedVia country e)) (emit (Fetch url) w2)))))"

text \<open>
  Readings of a trace: the messages printed, the URLs handed to the fetcher, the countries
  for which a configuration file was written, the launches and the terminate signals.
\<close>

fun printed :: "event list \<Rightarrow> message list" where
  "printed [] = []"
| "printed (Print m # es) = m # printed es"
| "printed (e # es) = printed es"

fun fetched :: "event list \<Rightarrow> string list" where
  "fetched [] = []"
| "fetched (Fetch url # es) = url # fetched es"
| "fetched (e # es) = fetched es"

fun written_countries :: "event list \<Rightarrow> string list" where
  "written_countries [] = []"
| "written_countries (WriteTorrc f c # es) = c # written_countries es"
| "written_countries (e # es) = written_countries es"

fun is_launch :: "event \<Rightarrow> bool" where
  "is_launch (Launch p f) = True"
| "is_launch e = False"

fun is_terminate :: "event \<Rightarrow> bool" where
  "is_terminate (Terminate p) = True"
| "is_terminate e = False"

text \<open>
  A session left by an earlier start is described by the country, the process and the
  configuration file of that start. \<open>in_session env s w\<close> says that the state \<open>w\<close> holds the
  session \<open>s\<close> (or none): the handle and the reference are set, the flag is set, the file is
  on disk, and the process runs unless it has exited on its own.
\<close>

fun in_session :: "env \<Rightarrow> (string \<times> nat \<times> nat) option \<Rightarrow> world \<Rightarrow> bool" where
  "in_session env None w \<longleftrightarrow> tor_process w = None \<and> torrc_path w = None"
| "in_session env (Some (c, p, f)) w \<longleftrightarrow>
     tor_process w = Some p \<and> tor_started_by_us w \<and> torrc_path w = Some f \<and> f \<in> files w
     \<and> (p \<in> running w) = (\<not> exits env c)"

text \<open>
  What \<^verbatim>\<open>terminate_tor_process\<close> does to such a session: the process is sent the signal if it
  still runs, and killed if it outlasts the grace period; the configuration file is removed.
\<close>

definition stop_events :: "env \<Rightarrow> string \<Rightarrow> nat \<Rightarrow> event list" where
  "stop_events env c p =
     (if exits env c then []
      else if graceful env p then [Terminate p]
      else [Terminate p, Kill p])"

fun closing :: "env \<Rightarrow> (string \<times> nat \<times> nat) option \<Rightarrow> event list" where
  "closing env None = []"
| "closing env (Some (c, p, f)) = stop_events env c p @ [Remove f]"

text \<open>
  The events of the loop over candidates that are started and never become ready, from a
  state holding the session \<open>s\<close>, the next process being \<open>p\<close> and the next file \<open>f\<close>: for each
  candidate the announcement, the closing of the session before it, the new configuration,
  the launch and the line about the failed readiness; at the end the final failure. No
  closing follows the last launch.
\<close>

fun unready_events ::
  "env \<Rightarrow> (string \<times> nat \<times> nat) option \<Rightarrow> nat \<Rightarrow> nat \<Rightarrow> string list \<Rightarrow> event list" where
  "unready_events env s p f [] = [Print AllFailed]"
| "unready_events env s p f (c # cs) =
     Print (Trying c) # closing env s
       @ [WriteTorrc f c, Launch p f, Print NotReady]
       @ unready_events env (Some (c, p, f)) (Suc p) (Suc f) cs"

text \<open>The session the state holds after that loop.\<close>

fun session_after ::
  "(string \<times> nat \<times> nat) option \<Rightarrow> nat \<Rightarrow> nat \<Rightarrow> string list
     \<Rightarrow> (string \<times> nat \<times> nat) option" where
  "session_after s p f [] = s"
| "session_after s p f (c # cs) = session_after (Some (c, p, f)) (Suc p) (Suc f) cs"

text \<open>
  A candidate that fails the readiness wait: the proxy is started for it (the binary is
  there and the process is launched) and \<^verbatim>\<open>wait_for_tor()\<close> returns \<^verbatim>\<open>False\<close>.
\<close>

definition starts :: "env \<Rightarrow> string \<Rightarrow> bool" where
  "starts env c =
     (case ensure_tor_files env c of
        Inl e \<Rightarrow> False
      | Inr tor_path \<Rightarrow> path_exists env tor_path \<and> popen env c)"

definition fails_readiness :: "env \<Rightarrow> string \<Rightarrow> bool" where
  "fails_readiness env c \<longleftrightarrow> starts env c \<and> \<not> wait_for_tor env c"

text \<open>
  A candidate that fails by a fetcher error: the proxy is started and ready, the identity
  probe returns, and the fetcher raises.
\<close>

definition probe_returns :: "env \<Rightarrow> string \<Rightarrow> bool" where
  "probe_returns env c =
     (case probe env c of
        Inl e \<Rightarrow> False
      | Inr (Reply ok json) \<Rightarrow> \<not> ok \<or> isl json = False)"

definition fails_fetch :: "env \<Rightarrow> string \<Rightarrow> string \<Rightarrow> bool" where
  "fails_fetch env url c \<longleftrightarrow>
     starts env c \<and> wait_for_tor env c \<and> probe_returns env c \<and> isl (fetcher env c url)"

definition candidate_fails :: "env \<Rightarrow> string \<Rightarrow> string \<Rightarrow> bool" where
  "candidate_fails env url c \<longleftrightarrow> fails_readiness env c \<or> fails_fetch env url c"


text \<open>
  \<^verbatim>\<open>download_video(url)\<close>: \<^verbatim>\<open>ensure_ffmpeg()\<close> first, then the loop over \<^verbatim>\<open>SAFE_COUNTRIES\<close>.
\<close>

definition download_video :: "env \<Rightarrow> string \<Rightarrow> world \<Rightarrow> (error + unit) \<times> world" where
  "download_video env url w =
     (case ensure_ffmpeg env of
        Inl e \<Rightarrow> (Inl e, w)
      | Inr ffmpeg_path \<Rightarrow> rotation_loop env url SAFE_COUNTRIES w)"

text \<open>
  The program: \<^verbatim>\<open>download_video(url)\<close>, then the hook of
  \<^verbatim>\<open>atexit.register(terminate_tor_process)\<close>, which runs when the interpreter exits, after a
  normal return and after an exception alike.
\<close>

definition main_program :: "env \<Rightarrow> string \<Rightarrow> world \<Rightarrow> (error + unit) \<times> world" where
  "main_program env url w =
     (case download_video env url w of
        (result, w1) \<Rightarrow> (result, terminate_tor_process env w1))"

text \<open>The state at the start of the program: no session, nothing printed.\<close>

definition idle :: world where
  "idle = \<lparr>tor_process = None, torrc_path = None, tor_started_by_us = False,
           running = {}, files = {}, next_pid = 0, next_tmp = 0, trace = []\<rparr>"

section \<open>Example inputs\<close>

text \<open>
  A server that sends one byte at time 1 and then nothing: the next read gets no byte, times
  out inside the HTTP library, and the iterator raises. The call started at time 0.
\<close>

definition silent_server :: transfer_env where
  "silent_server =
     \<lparr>http_get = (\<lambda>url. Inr \<lparr>status_ok = True, content_length = Inr 0,
                               body = [Chunk ''x'' 1, Broken RequestError]\<rparr>),
      clock0 = 0,
      can_open = (\<lambda>path. True)\<rparr>"

text \<open>A server that sends two bytes and, within the timeout, one more.\<close>

definition steady_server :: transfer_env where
  "steady_server =
     \<lparr>http_get = (\<lambda>url. Inr \<lparr>status_ok = True, content_length = Inr 3,
                               body = [Chunk ''ab'' 1, Chunk ''c'' 3]\<rparr>),
      clock0 = 0,
      can_open = (\<lambda>path. True)\<rparr>"

text \<open>An outside world in which everything works.\<close>

definition healthy :: env where
  "healthy =
     \<lparr>graceful = (\<lambda>p. True),
      ensure_ffmpeg = Inr ''ffmpeg-latest/bin/ffmpeg.exe'',
      ensure_tor_files = (\<lambda>c. Inr ''tor/tor''),
      path_exists = (\<lambda>path. True),
      popen = (\<lambda>c. True),
      wait_for_tor = (\<lambda>c. True),
      exits = (\<lambda>c. False),
      probe = (\<lambda>c. Inr (Reply True (Inr (''192.0.2.1'', ''True'')))),
      fetcher = (\<lambda>c url. Inr ())\<rparr>"

text \<open>The proxy never opens its port; the process keeps running.\<close>

definition never_ready :: env where
  "never_ready = healthy\<lparr>wait_for_tor := (\<lambda>c. False)\<rparr>"

text \<open>
  The proxy never opens its port; the process launched for Switzerland exits on its own,
  and process 2 does not exit within the grace period after the terminate signal.
\<close>

definition crashing :: env where
  "crashing = never_ready\<lparr>exits := (\<lambda>c. c = ''ch''), graceful := (\<lambda>p. p \<noteq> 2)\<rparr>"

text \<open>The request of the identity probe fails: \<^verbatim>\<open>requests.get\<close> raises.\<close>

definition probe_down :: env where
  "probe_down = healthy\<lparr>probe := (\<lambda>c. Inl RequestError)\<rparr>"

text \<open>The fetcher fails through every exit country.\<close>

definition blocked :: env where
  "blocked = healthy\<lparr>fetcher := (\<lambda>c url. Inl FetcherError)\<rparr>"

text \<open>
  A state without a session of the orchestrator, in which another proxy (process 2) runs and
  the configuration file 5 of an earlier start is still on disk.
\<close>

definition leftover :: world where
  "leftover = idle\<lparr>torrc_path := Some 5, files := {5}, running := {2},
                   next_pid := 3, next_tmp := 6\<rparr>"

text \<open>The same, the file having been deleted from outside.\<close>

definition dangling :: world where
  "dangling = leftover\<lparr>files := {}\<rparr>"

text \<open>
  A handle to a running process (process 2) that the orchestrator did not start: the flag
  is false. The configuration file 5 is on disk.
\<close>

definition foreign_session :: world where
  "foreign_session = idle\<lparr>tor_process := Some 2, torrc_path := Some 5, files := {5},
                          running := {2}, next_pid := 3, next_tmp := 6\<rparr>"

text \<open>A session of the orchestrator: process 3, started with the configuration file 5.\<close>

definition active :: world where
  "active = idle\<lparr>tor_process := Some 3, torrc_path := Some 5, tor_started_by_us := True,
                 running := {2, 3}, files := {5}, next_pid := 4, next_tmp := 6,
                 trace := [WriteTorrc 5 ''se'', Launch 3 5]\<rparr>"

text \<open>The states after a first start and after a second start directly following it.\<close>

definition after_se :: world where
  "after_se = snd (start_tor_process healthy ''se'' idle)"

definition after_ch :: world where
  "after_ch = snd (start_tor_process healthy ''ch'' after_se)"

section \<open>Properties\<close>

subsection \<open>Filename sanitizer\<close>

lemma underscore_allowed: "CHR ''_'' \<notin> forbidden"
  by (simp add: forbidden_def)

lemma space_allowed: "CHR '' '' \<notin> forbidden"
  by (simp add: forbidden_def)

lemma space_to_underscore_forbidden:
  "space_to_underscore c \<in> forbidden \<longleftrightarrow> c \<in> forbidden"
  using underscore_allowed space_allowed
  by (auto simp: space_to_underscore_def)

lemma space_to_underscore_not_space: "space_to_underscore c \<noteq> CHR '' ''"
  by (simp add: space_to_underscore_def)

lemma space_to_underscore_idem:
  "space_to_underscore (space_to_underscore c) = space_to_underscore c"
  by (simp add: space_to_underscore_def)

lemma sanitize_filename_set:
  "set (sanitize_filename s) \<inter> (forbidden \<union> {CHR '' ''}) = {}"
  using space_to_underscore_not_space
  by (fastforce simp: sanitize_filename_def space_to_underscore_forbidden)

lemma sanitize_filename_idem:
  "sanitize_filename (sanitize_filename s) = sanitize_filename s"
  by (induction s)
    (simp_all add: sanitize_filename_def space_to_underscore_forbidden
      space_to_underscore_idem)

text \<open>
  Claim C10. Whatever the input string, the output of the filename sanitizer contains no
  character of the forbidden set and no space, and sanitizing an already sanitized name
  changes nothing.
\<close>

theorem sanitize_filename_safe_idempotent:
  "set (sanitize_filename s) \<inter> (forbidden \<union> {CHR '' ''}) = {}
   \<and> sanitize_filename (sanitize_filename s) = sanitize_filename s"
  using sanitize_filename_set sanitize_filename_idem by blast

theorem sanitize_filename_safe_idempotent_witness:
  "sanitize_filename ''My Video: \"Title\"?.mp4'' = ''My_Video_Title.mp4''
   \<and> set ''My_Video_Title.mp4'' \<inter> (forbidden \<union> {CHR '' ''}) = {}
   \<and> sanitize_filename ''My_Video_Title.mp4'' = ''My_Video_Title.mp4''"
proof -
  have e: "sanitize_filename ''My Video: \"Title\"?.mp4'' = ''My_Video_Title.mp4''"
    by (simp add: sanitize_filename_def forbidden_def space_to_underscore_def)
  show ?thesis
    using sanitize_filename_safe_idempotent [of "''My Video: \"Title\"?.mp4''"]
    unfolding e by (simp add: e)
qed

subsection \<open>Version selection\<close>

lemma map_int_ok:
  "list_all (\<lambda>p. p \<noteq> [] \<and> list_all is_digit p) ps \<Longrightarrow> \<exists>ns. map_int ps = Inr ns"
  by (induction ps) (auto simp: py_int_def)

lemma version_key_ok: "dotted_numeric v \<Longrightarrow> \<exists>k. version_key v = Inr k"
  unfolding dotted_numeric_def version_key_def by (rule map_int_ok)

lemma split_on_nonempty: "split_on d s \<noteq> []"
  by (induction s) (auto split: list.splits)

lemma split_on_covers:
  "c \<in> set s \<Longrightarrow> c = d \<or> (\<exists>p\<in>set (split_on d s). c \<in> set p)"
proof (induction s)
  case Nil
  then show ?case by simp
next
  case (Cons x xs)
  then show ?case
    using split_on_nonempty [of d xs]
    by (cases "split_on d xs") (auto split: if_splits)
qed

lemma a_not_digit: "\<not> is_digit CHR ''a''"
  by (simp add: is_digit_def less_eq_char_def)

lemma no_a: "dotted_numeric v \<Longrightarrow> CHR ''a'' \<notin> set v"
proof
  assume dn: "dotted_numeric v" and "CHR ''a'' \<in> set v"
  then obtain p where "p \<in> set (split_on CHR ''.'' v)" "CHR ''a'' \<in> set p"
    using split_on_covers [of "CHR ''a''" v "CHR ''.''"] by auto
  with dn have "is_digit CHR ''a''"
    by (auto simp: dotted_numeric_def list_all_iff)
  then show False using a_not_digit by simp
qed

lemma sorted_map_last:
  "sorted (map f ys) \<Longrightarrow> y \<in> set ys \<Longrightarrow> f y \<le> f (last ys)"
  by (induction ys) (auto split: if_splits)

lemma last_sort_key_max:
  assumes "xs \<noteq> []"
  shows "last (sort_key f xs) \<in> set xs"
    and "u \<in> set xs \<Longrightarrow> f u \<le> f (last (sort_key f xs))"
proof -
  have ne: "sort_key f xs \<noteq> []"
    using assms by (metis set_empty set_sort)
  show "last (sort_key f xs) \<in> set xs"
    using last_in_set [OF ne] by simp
  show "u \<in> set xs \<Longrightarrow> f u \<le> f (last (sort_key f xs))"
    using sorted_map_last [of f "sort_key f xs" u] by simp
qed

lemma select_latest_highest:
  assumes ne: "vs \<noteq> []" and dn: "\<forall>v\<in>set vs. dotted_numeric v"
  shows "\<exists>v. select_latest vs = Inr v \<and> v \<in> set vs \<and> (\<forall>u\<in>set vs. key_of u \<le> key_of v)"
proof -
  have f: "filter (\<lambda>v. CHR ''a'' \<notin> set v) vs = vs"
    using dn no_a by (simp add: filter_id_conv)
  have k: "\<not> list_ex (\<lambda>v. isl (version_key v)) vs"
    using dn version_key_ok by (fastforce simp: list_ex_iff)
  have s: "sort_key key_of vs \<noteq> []"
    using ne by (metis set_empty set_sort)
  have "select_latest vs = Inr (last (sort_key key_of vs))"
    using f k s by (simp add: select_latest_def)
  then show ?thesis
    using last_sort_key_max [OF ne, where f = key_of] by blast
qed




text \<open>
  Claim C8. For every non-empty list of dotted-numeric version strings the selection returns
  a member of the list whose tuple of integers is greater than or equal to the tuple of
  every other member; for the list 9.9, 10.0, 9.10 it returns 10.0, which as a string is
  smaller than 9.9.
\<close>

theorem select_latest_numerically_highest:
  "(vs \<noteq> [] \<and> list_all dotted_numeric vs \<longrightarrow>
      (\<exists>v k. select_latest vs = Inr v \<and> v \<in> set vs \<and> version_key v = Inr k \<and>
         (\<forall>u\<in>set vs. \<exists>ku. version_key u = Inr ku \<and> ku \<le> k)))
   \<and> select_latest [''9.9'', ''10.0'', ''9.10''] = Inr ''10.0''
   \<and> (''10.0'' :: string) < ''9.9''"
proof (intro conjI impI)
  assume a: "vs \<noteq> [] \<and> list_all dotted_numeric vs"
  then have dn: "\<forall>v\<in>set vs. dotted_numeric v"
    by (simp add: list_all_iff)
  from a dn obtain v where v: "select_latest vs = Inr v" "v \<in> set vs"
    "\<forall>u\<in>set vs. key_of u \<le> key_of v"
    using select_latest_highest by blast
  obtain k where k: "version_key v = Inr k"
    using dn v(2) version_key_ok by blast
  have "\<exists>ku. version_key u = Inr ku \<and> ku \<le> k" if u: "u \<in> set vs" for u
  proof -
    obtain ku where ku: "version_key u = Inr ku"
      using dn u version_key_ok by blast
    have "key_of u \<le> key_of v" using v(3) u by (rule bspec)
    then show ?thesis using ku k by (simp add: key_of_def)
  qed
  then show "\<exists>v k. select_latest vs = Inr v \<and> v \<in> set vs \<and> version_key v = Inr k \<and>
         (\<forall>u\<in>set vs. \<exists>ku. version_key u = Inr ku \<and> ku \<le> k)"
    using v(1,2) k by blast
next
  show "select_latest [''9.9'', ''10.0'', ''9.10''] = Inr ''10.0''"
    by code_simp
next
  show "(''10.0'' :: string) < ''9.9''"
    by code_simp
qed

theorem select_latest_numerically_highest_witness:
  "select_latest [''1.2.3'', ''1.10'', ''1.9.9''] = Inr ''1.10''
   \<and> version_key ''1.10'' = Inr [1, 10]
   \<and> version_key ''1.2.3'' = Inr [1, 2, 3]
   \<and> version_key ''1.9.9'' = Inr [1, 9, 9]
   \<and> [1, 2, 3] \<le> [1, 10 :: int] \<and> [1, 9, 9] \<le> [1, 10 :: int]"
proof -
  have h: "[''1.2.3'', ''1.10'', ''1.9.9''] \<noteq> [] \<and>
           list_all dotted_numeric [''1.2.3'', ''1.10'', ''1.9.9'']"
    by code_simp
  have e: "select_latest [''1.2.3'', ''1.10'', ''1.9.9''] = Inr ''1.10''"
    by code_simp
  have k1: "version_key ''1.10'' = Inr [1, 10]" by code_simp
  have k2: "version_key ''1.2.3'' = Inr [1, 2, 3]" by code_simp
  have k3: "version_key ''1.9.9'' = Inr [1, 9, 9]" by code_simp
  from select_latest_numerically_highest [of "[''1.2.3'', ''1.10'', ''1.9.9'']"] h
  have "\<exists>v k. select_latest [''1.2.3'', ''1.10'', ''1.9.9''] = Inr v \<and>
          v \<in> set [''1.2.3'', ''1.10'', ''1.9.9''] \<and> version_key v = Inr k \<and>
          (\<forall>u\<in>set [''1.2.3'', ''1.10'', ''1.9.9'']. \<exists>ku. version_key u = Inr ku \<and> ku \<le> k)"
    by blast
  then have "[1, 2, 3] \<le> [1, 10 :: int] \<and> [1, 9, 9] \<le> [1, 10 :: int]"
    unfolding e using k1 k2 k3 by simp
  then show ?thesis using e k1 k2 k3 by simp
qed

subsection \<open>Stall-watchdog transfer\<close>

lemma loop_success:
  "watchdog_loop label timeout items t written = (Inr (), w')
   \<Longrightarrow> w' = written @ concat (received items) \<and> list_all is_chunk items"
proof (induction label timeout items t written rule: watchdog_loop.induct)
  case (1 label timeout last_data_time written)
  then show ?case by simp
next
  case (2 label timeout e rest last_data_time written)
  then show ?case by simp
next
  case (3 label timeout chunk now rest last_data_time written)
  then show ?case by (auto split: if_splits)
qed

text \<open>
  Claim C9. If the transfer completes successfully, every item of the body was a chunk and
  the destination file holds the non-empty chunks received, concatenated in order.
\<close>

theorem download_with_watchdog_content:
  assumes "download_with_watchdog env url dest_path label timeout fs = (Inr (), fs')"
  shows "\<exists>r. http_get env url = Inr r \<and> list_all is_chunk (body r) \<and>
             fs' = fs(dest_path \<mapsto> concat (received (body r)))"
proof (cases "http_get env url")
  case (Inl e)
  with assms show ?thesis by (simp add: download_with_watchdog_def)
next
  case (Inr r)
  obtain res written where
    l: "watchdog_loop label timeout (body r) (clock0 env) [] = (res, written)"
    by (cases "watchdog_loop label timeout (body r) (clock0 env) []")
  from assms Inr l have "res = Inr ()" and fs': "fs' = fs(dest_path \<mapsto> written)"
    by (auto simp: download_with_watchdog_def split: if_splits sum.splits)
  with l loop_success [of label timeout "body r" "clock0 env" "[]" written]
  have "written = concat (received (body r))" "list_all is_chunk (body r)"
    by simp_all
  with Inr fs' show ?thesis by simp
qed

theorem download_with_watchdog_content_witness:
  "download_with_watchdog steady_server ''u'' ''d'' ''ffmpeg'' 30 Map.empty
     = (Inr (), [''d'' \<mapsto> ''abc''])
   \<and> (\<exists>r. http_get steady_server ''u'' = Inr r \<and> list_all is_chunk (body r) \<and>
          [''d'' \<mapsto> ''abc''] = Map.empty(''d'' \<mapsto> concat (received (body r))))"
proof -
  have run: "download_with_watchdog steady_server ''u'' ''d'' ''ffmpeg'' 30 Map.empty
     = (Inr (), [''d'' \<mapsto> ''abc''])"
    by (simp add: download_with_watchdog_def steady_server_def)
  from download_with_watchdog_content [OF run] run show ?thesis by simp
qed

lemma receivable_chunks_complete:
  "receivable items \<Longrightarrow> list_all is_chunk items \<Longrightarrow>
   watchdog_loop label timeout items t written = (Inr (), written @ concat (received items))"
proof (induction label timeout items t written rule: watchdog_loop.induct)
  case (1 label timeout last_data_time written)
  then show ?case by simp
next
  case (2 label timeout e rest last_data_time written)
  then show ?case by simp
next
  case (3 label timeout chunk now rest last_data_time written)
  then show ?case by (simp add: receivable_def)
qed

lemma receivable_iterator_error:
  "receivable pre \<Longrightarrow> list_all is_chunk pre \<Longrightarrow>
   watchdog_loop label timeout (pre @ Broken e # post) t written
     = (Inl e, written @ concat (received pre))"
proof (induction label timeout pre t written rule: watchdog_loop.induct)
  case (1 label timeout last_data_time written)
  then show ?case by simp
next
  case (2 label timeout e' rest last_data_time written)
  then show ?case by simp
next
  case (3 label timeout chunk now rest last_data_time written)
  then show ?case by (simp add: receivable_def)
qed

text \<open>
  On a body the program can receive the stall test of the loop is never reached: the call
  ends normally when the iterator ends, and with the exception of the iterator when it
  raises, whatever the timeout.
\<close>

lemma receivable_transfer_fails_with_iterator_error:
  assumes "http_get env url = Inr r" and "status_ok r" and "content_length r = Inr n"
    and "can_open env dest_path"
    and "body r = pre @ Broken e # post" and "receivable pre" and "list_all is_chunk pre"
  shows "download_with_watchdog env url dest_path label timeout fs
           = (Inl e, fs(dest_path \<mapsto> concat (received pre)))"
  using assms receivable_iterator_error [of pre label timeout e post "clock0 env" "[]"]
  by (simp add: download_with_watchdog_def)

text \<open>
  Claim C3, where the code departs from it. A server sends one byte and then nothing for
  longer than the timeout. The iterator yields the byte and then raises the error of the
  timed-out read; no iteration yields an empty chunk, so the stall test of the loop is not
  reached. The call fails with the error of the HTTP library, not with the stall error.
\<close>

theorem silent_server_fails_without_stall_error:
  "receivable [Chunk ''x'' 1, Broken RequestError]
   \<and> http_get silent_server ''u''
       = Inr \<lparr>status_ok = True, content_length = Inr 0,
               body = [Chunk ''x'' 1, Broken RequestError]\<rparr>
   \<and> download_with_watchdog silent_server ''u'' ''d'' ''ffmpeg'' 30 Map.empty
       = (Inl RequestError, [''d'' \<mapsto> ''x''])
   \<and> \<not> is_stall (fst (download_with_watchdog silent_server ''u'' ''d'' ''ffmpeg'' 30
                          Map.empty))"
  by (simp add: download_with_watchdog_def silent_server_def receivable_def)

subsection \<open>Proxy process supervisor\<close>

lemma terminate_twice:
  "terminate_tor_process env (terminate_tor_process env w) = terminate_tor_process env w"
  by (auto simp: terminate_tor_process_def stop_process_def remove_torrc_def emit_def
      split: option.splits)

lemma stop_process_unstarted:
  "\<not> tor_started_by_us w \<Longrightarrow> stop_process env w = w"
  by (simp add: stop_process_def split: option.splits)

lemma remove_torrc_signals:
  "filter is_signal (trace (remove_torrc w)) = filter is_signal (trace w)"
  by (simp add: remove_torrc_def emit_def split: option.splits)

lemma remove_torrc_running: "running (remove_torrc w) = running w"
  by (simp add: remove_torrc_def emit_def split: option.splits)

lemma terminate_unstarted:
  assumes "\<not> tor_started_by_us w"
  shows "filter is_signal (trace (terminate_tor_process env w)) = filter is_signal (trace w)"
    and "running (terminate_tor_process env w) = running w"
  using assms
  by (simp_all add: terminate_tor_process_def stop_process_unstarted remove_torrc_signals
      remove_torrc_running)

lemma terminate_removes_existing:
  "torrc_path w = Some f \<Longrightarrow> f \<in> files w \<Longrightarrow>
   torrc_path (terminate_tor_process env w) = None \<and> f \<notin> files (terminate_tor_process env w)"
  by (auto simp: terminate_tor_process_def stop_process_def remove_torrc_def emit_def
      split: option.splits)

lemma start_after_terminate_signals:
  "filter is_signal (trace (snd (start_tor_process env c w)))
     = filter is_signal (trace (terminate_tor_process env w))"
  by (simp add: start_tor_process_def Let_def emit_def split: sum.splits)

lemma start_after_terminate_running:
  "running (terminate_tor_process env w) \<subseteq> running (snd (start_tor_process env c w))"
  by (auto simp: start_tor_process_def Let_def emit_def split: sum.splits)


text \<open>
  Claim C7. Calling \<^verbatim>\<open>terminate_tor_process\<close> a second time changes nothing: the state,
  trace included, is the state after the first call, so the second call sends no signal and
  removes no file. The function has no failing branch.
\<close>

theorem terminate_tor_process_idempotent:
  "terminate_tor_process env (terminate_tor_process env w) = terminate_tor_process env w
   \<and> filter is_signal (trace (terminate_tor_process env (terminate_tor_process env w)))
       = filter is_signal (trace (terminate_tor_process env w))"
  by (simp add: terminate_twice)

theorem terminate_tor_process_idempotent_witness:
  "filter is_signal (trace (terminate_tor_process healthy active)) = [Terminate 3]
   \<and> filter is_signal (trace (terminate_tor_process healthy
                                (terminate_tor_process healthy active))) = [Terminate 3]
   \<and> terminate_tor_process healthy (terminate_tor_process healthy active)
       = terminate_tor_process healthy active"
proof -
  have "filter is_signal (trace (terminate_tor_process healthy active)) = [Terminate 3]"
    by (simp add: terminate_tor_process_def stop_process_def remove_torrc_def emit_def
        active_def idle_def healthy_def)
  with terminate_tor_process_idempotent [of healthy active] show ?thesis by simp
qed

lemma terminate_keeps_dangling:
  "torrc_path w = Some f \<Longrightarrow> f \<notin> files w \<Longrightarrow>
   torrc_path (terminate_tor_process env w) = Some f
   \<and> files (terminate_tor_process env w) = files w"
  by (auto simp: terminate_tor_process_def stop_process_def remove_torrc_def emit_def
      split: option.splits)

text \<open>
  Claim C6, as the code has it. While \<^verbatim>\<open>tor_started_by_us\<close> is false, neither
  \<^verbatim>\<open>terminate_tor_process\<close> nor \<^verbatim>\<open>start_tor_process\<close> sends a signal, and every process that
  ran before still runs afterwards. \<^verbatim>\<open>terminate_tor_process\<close> removes the configuration file
  and clears its reference when the file exists; when the file the reference names does not
  exist, the reference is kept and no file is touched.
\<close>

theorem unstarted_process_never_signalled:
  assumes "\<not> tor_started_by_us w"
  shows "filter is_signal (trace (terminate_tor_process env w)) = filter is_signal (trace w)
    \<and> running (terminate_tor_process env w) = running w
    \<and> filter is_signal (trace (snd (start_tor_process env c w))) = filter is_signal (trace w)
    \<and> running w \<subseteq> running (snd (start_tor_process env c w))
    \<and> (\<forall>f. torrc_path w = Some f \<and> f \<in> files w \<longrightarrow>
           torrc_path (terminate_tor_process env w) = None
           \<and> f \<notin> files (terminate_tor_process env w))
    \<and> (\<forall>f. torrc_path w = Some f \<and> f \<notin> files w \<longrightarrow>
           torrc_path (terminate_tor_process env w) = Some f
           \<and> files (terminate_tor_process env w) = files w)"
  using terminate_unstarted [OF assms, of env]
    start_after_terminate_signals [of env c w]
    start_after_terminate_running [of env w c]
    terminate_removes_existing [of w _ env]
    terminate_keeps_dangling [of w _ env]
  by simp

theorem unstarted_process_never_signalled_witness:
  "\<not> tor_started_by_us foreign_session
   \<and> tor_process foreign_session = Some 2
   \<and> running foreign_session = {2}
   \<and> filter is_signal (trace (terminate_tor_process healthy foreign_session)) = []
   \<and> running (terminate_tor_process healthy foreign_session) = {2}
   \<and> filter is_signal (trace (snd (start_tor_process healthy ''se'' foreign_session))) = []
   \<and> 2 \<in> running (snd (start_tor_process healthy ''se'' foreign_session))
   \<and> torrc_path (terminate_tor_process healthy foreign_session) = None
   \<and> 5 \<notin> files (terminate_tor_process healthy foreign_session)
   \<and> \<not> tor_started_by_us dangling
   \<and> torrc_path (terminate_tor_process healthy dangling) = Some 5
   \<and> files (terminate_tor_process healthy dangling) = {}"
proof -
  have h: "\<not> tor_started_by_us foreign_session"
    by (simp add: foreign_session_def idle_def)
  have v: "tor_process foreign_session = Some 2" "torrc_path foreign_session = Some 5"
    "5 \<in> files foreign_session" "running foreign_session = {2}" "trace foreign_session = []"
    by (simp_all add: foreign_session_def idle_def)
  have h': "\<not> tor_started_by_us dangling"
    by (simp add: dangling_def leftover_def idle_def)
  have v': "torrc_path dangling = Some 5" "5 \<notin> files dangling" "files dangling = {}"
    by (simp_all add: dangling_def leftover_def idle_def)
  from unstarted_process_never_signalled [OF h, of healthy "''se''"]
    unstarted_process_never_signalled [OF h', of healthy "''se''"] v v' h h'
  show ?thesis by auto
qed

text \<open>
  When the file the reference names is already gone, the test of existence fails and the
  reference is kept.
\<close>

theorem stale_reference_counterexample:
  "\<not> tor_started_by_us dangling
   \<and> torrc_path dangling = Some 5
   \<and> 5 \<notin> files dangling
   \<and> torrc_path (terminate_tor_process healthy dangling) = Some 5"
  by (simp add: terminate_tor_process_def stop_process_def remove_torrc_def
      dangling_def leftover_def idle_def)

subsection \<open>One proxy session at a time\<close>

lemma launched_append: "launched (es @ es') = launched es \<union> launched es'"
  by (induction es rule: launched.induct) auto

lemma launched_stop_process: "launched (trace (stop_process env w)) = launched (trace w)"
  by (simp add: stop_process_def emit_def launched_append split: option.splits)

lemma launched_remove_torrc: "launched (trace (remove_torrc w)) = launched (trace w)"
  by (simp add: remove_torrc_def emit_def launched_append split: option.splits)

lemma launched_terminate:
  "launched (trace (terminate_tor_process env w)) = launched (trace w)"
  by (simp add: terminate_tor_process_def launched_remove_torrc launched_stop_process)

lemma terminate_globals:
  "tor_process (terminate_tor_process env w) = None"
  "tor_started_by_us (terminate_tor_process env w) = False"
  by (simp_all add: terminate_tor_process_def remove_torrc_def emit_def split: option.splits)

lemma running_terminate:
  "running (terminate_tor_process env w) =
     (case tor_process w of
        None \<Rightarrow> running w
      | Some p \<Rightarrow> if tor_started_by_us w then running w - {p} else running w)"
  by (auto simp: terminate_tor_process_def remove_torrc_running stop_process_def emit_def
      split: option.splits)

lemma terminate_live:
  "supervised w \<Longrightarrow> live_proxies (terminate_tor_process env w) = {}"
  by (auto simp: supervised_def live_proxies_def launched_terminate running_terminate
      split: option.splits)

lemma terminate_supervised: "supervised w \<Longrightarrow> supervised (terminate_tor_process env w)"
  using terminate_live [of w env]
  by (simp add: supervised_def terminate_globals)

lemma start_ok:
  assumes "start_tor_process env c w = (Inr (), w')"
  shows "tor_process w' = Some (next_pid (terminate_tor_process env w))"
    and "tor_started_by_us w'"
    and "torrc_path w' = Some (next_tmp (terminate_tor_process env w))"
    and "files w' = insert (next_tmp (terminate_tor_process env w))
                      (files (terminate_tor_process env w))"
    and "next_tmp w' = Suc (next_tmp (terminate_tor_process env w))"
    and "live_proxies w' = insert (next_pid (terminate_tor_process env w))
                             (live_proxies (terminate_tor_process env w))"
  using assms
  by (auto simp: start_tor_process_def Let_def emit_def live_proxies_def launched_append
      split: sum.splits if_splits)

lemma start_failed:
  assumes "start_tor_process env c w = (Inl e, w')"
  shows "tor_process w' = None"
    and "\<not> tor_started_by_us w'"
    and "live_proxies w' = live_proxies (terminate_tor_process env w)"
    and "files w' \<subseteq> insert (next_tmp (terminate_tor_process env w))
                      (files (terminate_tor_process env w))"
  using assms
  by (auto simp: start_tor_process_def Let_def emit_def live_proxies_def launched_append
      terminate_globals split: sum.splits if_splits)

lemma next_tmp_terminate: "next_tmp (terminate_tor_process env w) = next_tmp w"
  by (simp add: terminate_tor_process_def stop_process_def remove_torrc_def emit_def
      split: option.splits)

lemma files_terminate:
  "files (terminate_tor_process env w) =
     (case torrc_path w of None \<Rightarrow> files w | Some f \<Rightarrow> files w - {f})"
  by (auto simp: terminate_tor_process_def stop_process_def remove_torrc_def emit_def
      split: option.splits)

lemma start_supervised:
  assumes "supervised w"
  shows "supervised (snd (start_tor_process env c w))"
proof (cases "start_tor_process env c w")
  case (Pair r w')
  show ?thesis
  proof (cases r)
    case (Inl e)
    with Pair start_failed [of env c w e w'] terminate_live [OF assms, of env]
    show ?thesis by (simp add: supervised_def)
  next
    case (Inr u)
    with Pair start_ok [of env c w w'] terminate_live [OF assms, of env]
    show ?thesis by (simp add: supervised_def)
  qed
qed


lemma supervised_idle: "supervised idle"
  by (simp add: supervised_def live_proxies_def idle_def)

text \<open>
  Claim C5. After a successful start for one candidate, a start for a second candidate with
  no call of \<^verbatim>\<open>terminate_tor_process\<close> in between first stops the process of the first (no
  proxy of the orchestrator runs at that point), and when it returns exactly one proxy of
  the orchestrator runs, the one in the handle; the configuration file of the first
  candidate is no longer on disk. Whether the second start returns or raises, at most one
  proxy of the orchestrator runs in every state passed through.
\<close>

theorem restart_leaves_one_proxy:
  assumes "supervised w"
    and "start_tor_process env c1 w = (Inr (), w1)"
    and "start_tor_process env c2 w1 = (r, w2)"
  shows "(\<exists>p. live_proxies w1 = {p} \<and> tor_process w1 = Some p)
    \<and> live_proxies (terminate_tor_process env w1) = {}
    \<and> (r = Inr () \<longrightarrow> (\<exists>p. live_proxies w2 = {p} \<and> tor_process w2 = Some p))
    \<and> (\<exists>p. live_proxies w2 \<subseteq> {p})
    \<and> (\<exists>f. torrc_path w1 = Some f \<and> f \<in> files w1 \<and> f \<notin> files w2)
    \<and> supervised w1 \<and> supervised w2"
proof -
  have s1: "supervised w1"
    using start_supervised [OF assms(1), of env c1] assms(2) by simp
  have s2: "supervised w2"
    using start_supervised [OF s1, of env c2] assms(3) by simp
  have l1: "live_proxies w1 = {next_pid (terminate_tor_process env w)}"
    using start_ok(6) [OF assms(2)] terminate_live [OF assms(1), of env] by simp
  have t1: "live_proxies (terminate_tor_process env w1) = {}"
    by (rule terminate_live [OF s1])
  have one: "\<exists>p. live_proxies w2 = {p} \<and> tor_process w2 = Some p" if "r = Inr ()"
    using start_ok(1,6) [of env c2 w1 w2] assms(3) that t1 by simp
  have most: "\<exists>p. live_proxies w2 \<subseteq> {p}"
  proof (cases r)
    case (Inl e)
    then show ?thesis using start_failed(3) [of env c2 w1 e w2] assms(3) t1 by simp
  next
    case (Inr u)
    then show ?thesis using one by auto
  qed
  let ?f = "next_tmp (terminate_tor_process env w)"
  have f1: "torrc_path w1 = Some ?f" "?f \<in> files w1" "next_tmp w1 = Suc ?f"
    using start_ok(3,4,5) [OF assms(2)] by simp_all
  have gone: "?f \<notin> files (terminate_tor_process env w1)"
    using f1 by (simp add: files_terminate)
  have "?f \<notin> files w2"
  proof (cases r)
    case (Inl e)
    then show ?thesis
      using start_failed(4) [of env c2 w1 e w2] assms(3) gone f1(3)
      by (auto simp: next_tmp_terminate)
  next
    case (Inr u)
    then show ?thesis
      using start_ok(4) [of env c2 w1 w2] assms(3) gone f1(3)
      by (auto simp: next_tmp_terminate)
  qed
  with f1 l1 start_ok(1) [OF assms(2)] t1 one most s1 s2 show ?thesis by simp
qed

lemma after_se_eq:
  "after_se = \<lparr>tor_process = Some 0, torrc_path = Some 0, tor_started_by_us = True,
                running = {0}, files = {0}, next_pid = Suc 0, next_tmp = Suc 0,
                trace = [WriteTorrc 0 ''se'', Launch 0 0]\<rparr>"
  by (simp add: after_se_def start_tor_process_def Let_def healthy_def
      terminate_tor_process_def stop_process_def remove_torrc_def emit_def idle_def)

lemma after_ch_eq:
  "after_ch = \<lparr>tor_process = Some (Suc 0), torrc_path = Some (Suc 0),
                tor_started_by_us = True, running = {Suc 0}, files = {Suc 0},
                next_pid = Suc (Suc 0), next_tmp = Suc (Suc 0),
                trace = [WriteTorrc 0 ''se'', Launch 0 0, Terminate 0, Remove 0,
                         WriteTorrc (Suc 0) ''ch'', Launch (Suc 0) (Suc 0)]\<rparr>"
  by (simp add: after_ch_def after_se_eq start_tor_process_def Let_def healthy_def
      terminate_tor_process_def stop_process_def remove_torrc_def emit_def)

lemma start_se: "start_tor_process healthy ''se'' idle = (Inr (), after_se)"
  by (simp add: after_se_def prod_eq_iff start_tor_process_def Let_def healthy_def)

lemma start_ch: "start_tor_process healthy ''ch'' after_se = (Inr (), after_ch)"
  by (simp add: after_ch_def prod_eq_iff start_tor_process_def Let_def healthy_def)

theorem restart_leaves_one_proxy_witness:
  "supervised idle
   \<and> start_tor_process healthy ''se'' idle = (Inr (), after_se)
   \<and> start_tor_process healthy ''ch'' after_se = (Inr (), after_ch)
   \<and> live_proxies after_se = {0}
   \<and> torrc_path after_se = Some 0
   \<and> live_proxies after_ch = {1}
   \<and> 0 \<notin> files after_ch"
proof -
  have a: "tor_process after_se = Some 0" "torrc_path after_se = Some 0"
    by (simp_all add: after_se_eq)
  have b: "tor_process after_ch = Some 1"
    by (simp add: after_ch_eq)
  from restart_leaves_one_proxy [OF supervised_idle start_se start_ch] a b
    supervised_idle start_se start_ch
  show ?thesis by auto
qed

subsection \<open>Rotation over candidates that never become ready\<close>

lemma printed_append: "printed (es @ es') = printed es @ printed es'"
  by (induction es rule: printed.induct) auto

lemma fetched_append: "fetched (es @ es') = fetched es @ fetched es'"
  by (induction es rule: fetched.induct) auto

lemma written_countries_append:
  "written_countries (es @ es') = written_countries es @ written_countries es'"
  by (induction es rule: written_countries.induct) auto

lemmas trace_readings = printed_append fetched_append written_countries_append

lemma emit_fields:
  "tor_process (emit e w) = tor_process w"
  "torrc_path (emit e w) = torrc_path w"
  "tor_started_by_us (emit e w) = tor_started_by_us w"
  "running (emit e w) = running w"
  "files (emit e w) = files w"
  "next_pid (emit e w) = next_pid w"
  "next_tmp (emit e w) = next_tmp w"
  "trace (emit e w) = trace w @ [e]"
  by (simp_all add: emit_def)

lemma elapse_fields:
  "tor_process (elapse env c w) = tor_process w"
  "torrc_path (elapse env c w) = torrc_path w"
  "tor_started_by_us (elapse env c w) = tor_started_by_us w"
  "files (elapse env c w) = files w"
  "next_pid (elapse env c w) = next_pid w"
  "next_tmp (elapse env c w) = next_tmp w"
  "trace (elapse env c w) = trace w"
  by (simp_all add: elapse_def)

lemma in_session_emit: "in_session env s (emit e w) = in_session env s w"
  by (cases "(env, s, w)" rule: in_session.cases) (simp_all add: emit_fields)

lemma terminate_counters:
  "next_pid (terminate_tor_process env w) = next_pid w"
  "next_tmp (terminate_tor_process env w) = next_tmp w"
  by (simp_all add: terminate_tor_process_def stop_process_def remove_torrc_def emit_def
      split: option.splits)

text \<open>What a call of terminate adds to the trace: no message, no fetch, no configuration.\<close>

lemma terminate_trace:
  "\<exists>es. trace (terminate_tor_process env w) = trace w @ es \<and> printed es = []
        \<and> fetched es = [] \<and> written_countries es = []"
  by (auto simp: terminate_tor_process_def stop_process_def remove_torrc_def emit_def
      split: option.splits)

lemma terminate_in_session:
  "in_session env s w \<Longrightarrow>
   trace (terminate_tor_process env w) = trace w @ closing env s"
  by (cases "(env, s, w)" rule: in_session.cases)
    (auto simp: terminate_tor_process_def stop_process_def remove_torrc_def emit_def
      stop_events_def)

lemma start_summary:
  assumes "starts env c"
  obtains w' where "start_tor_process env c w = (Inr (), w')"
    and "printed (trace w') = printed (trace w)"
    and "fetched (trace w') = fetched (trace w)"
    and "written_countries (trace w') = written_countries (trace w) @ [c]"
    and "trace w' = trace (terminate_tor_process env w)
                      @ [WriteTorrc (next_tmp w) c, Launch (next_pid w) (next_tmp w)]"
    and "next_pid w' = Suc (next_pid w)" and "next_tmp w' = Suc (next_tmp w)"
    and "in_session env (Some (c, next_pid w, next_tmp w)) (elapse env c w')"
proof -
  obtain es where es: "trace (terminate_tor_process env w) = trace w @ es"
    "printed es = []" "fetched es = []" "written_countries es = []"
    using terminate_trace [of env w] by blast
  let ?w' = "snd (start_tor_process env c w)"
  have r: "start_tor_process env c w = (Inr (), ?w')"
    using assms
    by (auto simp: starts_def start_tor_process_def Let_def split: sum.splits)
  have t: "trace ?w' = trace (terminate_tor_process env w)
                         @ [WriteTorrc (next_tmp w) c, Launch (next_pid w) (next_tmp w)]"
    and h: "tor_process ?w' = Some (next_pid w)" "tor_started_by_us ?w'"
      "next_pid w \<in> running ?w'" "torrc_path ?w' = Some (next_tmp w)"
      "next_tmp w \<in> files ?w'"
    and n: "next_pid ?w' = Suc (next_pid w)" "next_tmp ?w' = Suc (next_tmp w)"
    using assms
    by (auto simp: starts_def start_tor_process_def Let_def emit_def terminate_counters
        split: sum.splits)
  have s: "in_session env (Some (c, next_pid w, next_tmp w)) (elapse env c ?w')"
    using h by (simp add: elapse_def)
  show ?thesis
    using that [OF r _ _ _ t n s] es by (simp add: t trace_readings)
qed

text \<open>Readings of the expected events.\<close>

lemma closing_readings:
  "fetched (closing env s) = []" "written_countries (closing env s) = []"
  "filter is_launch (closing env s) = []"
  "length (filter is_terminate (closing env s)) \<le> (case s of None \<Rightarrow> 0 | Some x \<Rightarrow> 1)"
  by (cases "(env, s)" rule: closing.cases; simp add: stop_events_def)+

lemma unready_events_fetched: "fetched (unready_events env s p f cs) = []"
  by (induction cs arbitrary: s p f) (simp_all add: trace_readings closing_readings)

lemma unready_events_countries: "written_countries (unready_events env s p f cs) = cs"
  by (induction cs arbitrary: s p f) (simp_all add: trace_readings closing_readings)

lemma unready_events_launches:
  "length (filter is_launch (unready_events env s p f cs)) = length cs"
  by (induction cs arbitrary: s p f) (simp_all add: closing_readings)

lemma unready_events_terminates:
  "length (filter is_terminate (unready_events env s p f cs))
     \<le> (case s of None \<Rightarrow> length cs - 1 | Some x \<Rightarrow> length cs)"
proof (induction cs arbitrary: s p f)
  case Nil
  then show ?case by (simp split: option.splits)
next
  case (Cons c cs)
  have r: "length (filter is_terminate
                     (unready_events env (Some (c, p, f)) (Suc p) (Suc f) cs)) \<le> length cs"
    using Cons [of "Some (c, p, f)" "Suc p" "Suc f"] by simp
  show ?case
  proof (cases s)
    case None
    then show ?thesis using r by simp
  next
    case (Some x)
    then show ?thesis
      using r closing_readings(4) [of env s] by (simp del: closing.simps)
  qed
qed

lemma unready_events_last: "last (es @ unready_events env s p f cs) = Print AllFailed"
proof (induction cs arbitrary: es s p f)
  case Nil
  then show ?case by simp
next
  case (Cons c cs)
  have "last ((es @ Print (Trying c) # closing env s
                 @ [WriteTorrc f c, Launch p f, Print NotReady])
              @ unready_events env (Some (c, p, f)) (Suc p) (Suc f) cs) = Print AllFailed"
    by (rule Cons)
  then show ?case by simp
qed

lemma launched_member: "Launch p f \<in> set es \<Longrightarrow> p \<in> launched es"
  by (induction es rule: launched.induct) auto

lemma rotation_unready:
  "list_all (fails_readiness env) cs \<Longrightarrow> in_session env s w \<Longrightarrow>
     fst (rotation_loop env url cs w) = Inr ()
   \<and> trace (snd (rotation_loop env url cs w))
       = trace w @ unready_events env s (next_pid w) (next_tmp w) cs
   \<and> in_session env (session_after s (next_pid w) (next_tmp w) cs)
       (snd (rotation_loop env url cs w))"
proof (induction cs arbitrary: w s)
  case Nil
  then show ?case by (simp add: emit_fields in_session_emit)
next
  case (Cons c cs)
  then have "fails_readiness env c" and cs: "list_all (fails_readiness env) cs"
    by simp_all
  then have c: "starts env c" "\<not> wait_for_tor env c"
    by (simp_all add: fails_readiness_def)
  let ?w0 = "emit (Print (Trying c)) w"
  have s0: "in_session env s ?w0"
    using Cons.prems(2) by (simp add: in_session_emit)
  obtain w1 where w1: "start_tor_process env c ?w0 = (Inr (), w1)"
    and t1: "trace w1 = trace (terminate_tor_process env ?w0)
                          @ [WriteTorrc (next_tmp ?w0) c, Launch (next_pid ?w0) (next_tmp ?w0)]"
    and n1: "next_pid w1 = Suc (next_pid ?w0)" "next_tmp w1 = Suc (next_tmp ?w0)"
    and s1: "in_session env (Some (c, next_pid ?w0, next_tmp ?w0)) (elapse env c w1)"
    using start_summary [OF c(1), of ?w0] by metis
  let ?w2 = "emit (Print NotReady) (elapse env c w1)"
  have step: "rotation_loop env url (c # cs) w = rotation_loop env url cs ?w2"
    using w1 c(2) by simp
  have s2: "in_session env (Some (c, next_pid w, next_tmp w)) ?w2"
    using s1 by (simp add: in_session_emit emit_fields)
  have t2: "trace ?w2 = trace w @ Print (Trying c) # closing env s
                          @ [WriteTorrc (next_tmp w) c, Launch (next_pid w) (next_tmp w),
                             Print NotReady]"
    using t1 terminate_in_session [OF s0] by (simp add: emit_fields elapse_fields)
  have n2: "next_pid ?w2 = Suc (next_pid w)" "next_tmp ?w2 = Suc (next_tmp w)"
    using n1 by (simp_all add: emit_fields elapse_fields)
  show ?case
    unfolding step
    using Cons.IH [OF cs s2] t2 n2 by simp
qed

text \<open>
  Claim C4, as the code has it. When every candidate of a list of length \<open>N\<close> fails the
  readiness wait, the loop started without a session returns normally and its trace is
  exactly this: for each candidate in list order the announcement, the termination of the
  session of the candidate before it (the signal if its process still runs, the kill if it
  outlasts the grace period, the removal of its configuration file), the new configuration,
  the launch and the line about the failed readiness; then the final failure, which is the
  last action. So there are \<open>N\<close> launches, at most \<open>N - 1\<close> terminate signals, no call of the
  fetcher, and the session of the last candidate is still in place at the end.
\<close>

theorem unready_candidates_start_in_order:
  assumes "list_all (fails_readiness env) cs"
    and "tor_process w = None" and "torrc_path w = None"
  shows "fst (rotation_loop env url cs w) = Inr ()
    \<and> trace (snd (rotation_loop env url cs w))
        = trace w @ unready_events env None (next_pid w) (next_tmp w) cs
    \<and> in_session env (session_after None (next_pid w) (next_tmp w) cs)
        (snd (rotation_loop env url cs w))
    \<and> last (trace (snd (rotation_loop env url cs w))) = Print AllFailed
    \<and> fetched (trace (snd (rotation_loop env url cs w))) = fetched (trace w)
    \<and> written_countries (trace (snd (rotation_loop env url cs w)))
        = written_countries (trace w) @ cs
    \<and> length (filter is_launch (trace (snd (rotation_loop env url cs w))))
        = length (filter is_launch (trace w)) + length cs
    \<and> length (filter is_terminate (trace (snd (rotation_loop env url cs w))))
        \<le> length (filter is_terminate (trace w)) + (length cs - 1)"
proof -
  have s: "in_session env None w"
    using assms(2,3) by simp
  have r: "fst (rotation_loop env url cs w) = Inr ()"
    "trace (snd (rotation_loop env url cs w))
       = trace w @ unready_events env None (next_pid w) (next_tmp w) cs"
    "in_session env (session_after None (next_pid w) (next_tmp w) cs)
       (snd (rotation_loop env url cs w))"
    using rotation_unready [OF assms(1) s, of url] by simp_all
  show ?thesis
    using r unready_events_terminates [of env None "next_pid w" "next_tmp w" cs]
    by (simp add: trace_readings unready_events_fetched unready_events_countries
        unready_events_launches unready_events_last)
qed

lemma never_ready_fails: "list_all (fails_readiness never_ready) SAFE_COUNTRIES"
  by (simp add: fails_readiness_def starts_def never_ready_def healthy_def
      SAFE_COUNTRIES_def)

lemma crashing_fails: "list_all (fails_readiness crashing) [''se'', ''ch'', ''no'', ''fi'']"
  by (simp add: fails_readiness_def starts_def crashing_def never_ready_def healthy_def)

theorem unready_candidates_start_in_order_witness:
  "list_all (fails_readiness crashing) [''se'', ''ch'', ''no'', ''fi'']
   \<and> tor_process idle = None \<and> torrc_path idle = None
   \<and> fst (rotation_loop crashing ''u'' [''se'', ''ch'', ''no'', ''fi''] idle) = Inr ()
   \<and> trace (snd (rotation_loop crashing ''u'' [''se'', ''ch'', ''no'', ''fi''] idle))
       = [Print (Trying ''se''), WriteTorrc 0 ''se'', Launch 0 0, Print NotReady,
          Print (Trying ''ch''), Terminate 0, Remove 0,
          WriteTorrc 1 ''ch'', Launch 1 1, Print NotReady,
          Print (Trying ''no''), Remove 1,
          WriteTorrc 2 ''no'', Launch 2 2, Print NotReady,
          Print (Trying ''fi''), Terminate 2, Kill 2, Remove 2,
          WriteTorrc 3 ''fi'', Launch 3 3, Print NotReady,
          Print AllFailed]
   \<and> in_session crashing (Some (''fi'', 3, 3))
       (snd (rotation_loop crashing ''u'' [''se'', ''ch'', ''no'', ''fi''] idle))"
proof -
  have i: "tor_process idle = None" "torrc_path idle = None" "trace idle = []"
    "next_pid idle = 0" "next_tmp idle = 0"
    by (simp_all add: idle_def)
  have e: "exits crashing ''se'' = False" "exits crashing ''ch'' = True"
    "exits crashing ''no'' = False" "graceful crashing 0 = True"
    "graceful crashing 2 = False"
    by (simp_all add: crashing_def never_ready_def healthy_def)
  from unready_candidates_start_in_order [OF crashing_fails i(1,2), of "''u''"] i e
    crashing_fails
  show ?thesis by (simp add: stop_events_def eval_nat_numeral)
qed

text \<open>
  With the eight countries of the program and processes that keep running, the loop
  launches eight proxies and sends seven terminate signals; when the final failure is
  printed the proxy of the last country still runs.
\<close>

theorem unready_cycles_counterexample:
  "list_all (fails_readiness never_ready) SAFE_COUNTRIES
   \<and> length SAFE_COUNTRIES = 8
   \<and> length (filter is_launch
              (trace (snd (rotation_loop never_ready ''u'' SAFE_COUNTRIES idle)))) = 8
   \<and> length (filter is_terminate
              (trace (snd (rotation_loop never_ready ''u'' SAFE_COUNTRIES idle)))) = 7
   \<and> last (trace (snd (rotation_loop never_ready ''u'' SAFE_COUNTRIES idle))) = Print AllFailed
   \<and> tor_process (snd (rotation_loop never_ready ''u'' SAFE_COUNTRIES idle)) = Some 7
   \<and> 7 \<in> live_proxies (snd (rotation_loop never_ready ''u'' SAFE_COUNTRIES idle))"
proof -
  let ?w = "snd (rotation_loop never_ready ''u'' SAFE_COUNTRIES idle)"
  have i: "in_session never_ready None idle" "trace idle = []"
    "next_pid idle = 0" "next_tmp idle = 0"
    by (simp_all add: idle_def)
  have x: "exits never_ready = (\<lambda>c. False)" "graceful never_ready = (\<lambda>p. True)"
    by (simp_all add: never_ready_def healthy_def)
  have t: "trace ?w = unready_events never_ready None 0 0 SAFE_COUNTRIES"
    and s: "in_session never_ready (session_after None 0 0 SAFE_COUNTRIES) ?w"
    using rotation_unready [OF never_ready_fails i(1), of "''u''"] i by simp_all
  have l: "Launch 7 7 \<in> set (trace ?w)"
    unfolding t by (simp add: SAFE_COUNTRIES_def stop_events_def x eval_nat_numeral)
  have "7 \<in> launched (trace ?w)"
    using l by (rule launched_member)
  moreover have "tor_process ?w = Some 7" "7 \<in> running ?w"
    using s by (simp_all add: SAFE_COUNTRIES_def x eval_nat_numeral)
  moreover have "length (filter is_terminate (trace ?w)) = 7"
    "length (filter is_launch (trace ?w)) = 8"
    unfolding t by (simp_all add: SAFE_COUNTRIES_def stop_events_def x)
  moreover have "last (trace ?w) = Print AllFailed"
    unfolding t using unready_events_last [of "[]"] by simp
  ultimately show ?thesis
    using never_ready_fails by (simp add: live_proxies_def SAFE_COUNTRIES_def)
qed

subsection \<open>Rotation: exhaustion and the identity probe\<close>

lemma probe_summary:
  assumes "probe_returns env c"
  obtains w' where "test_tor_connection env c w = (Inr (), w')"
    and "Succeeded \<in> set (printed (trace w')) \<longleftrightarrow> Succeeded \<in> set (printed (trace w))"
proof -
  let ?w' = "snd (test_tor_connection env c w)"
  have "test_tor_connection env c w = (Inr (), ?w')"
    using assms
    by (auto simp: probe_returns_def test_tor_connection_def Let_def
        split: sum.splits reply.splits)
  moreover have "Succeeded \<in> set (printed (trace ?w')) \<longleftrightarrow> Succeeded \<in> set (printed (trace w))"
    by (auto simp: test_tor_connection_def Let_def emit_def trace_readings
        split: sum.splits reply.splits)
  ultimately show ?thesis using that by blast
qed

lemma rotation_all_fail:
  "list_all (candidate_fails env url) cs \<Longrightarrow>
     fst (rotation_loop env url cs w) = Inr ()
   \<and> last (trace (snd (rotation_loop env url cs w))) = Print AllFailed
   \<and> (Succeeded \<in> set (printed (trace (snd (rotation_loop env url cs w))))
        \<longleftrightarrow> Succeeded \<in> set (printed (trace w)))"
proof (induction cs arbitrary: w)
  case Nil
  then show ?case by (simp add: emit_fields trace_readings)
next
  case (Cons c cs)
  then have f: "candidate_fails env url c" and cs: "list_all (candidate_fails env url) cs"
    by simp_all
  from f have st: "starts env c"
    by (auto simp: candidate_fails_def fails_readiness_def fails_fetch_def)
  obtain w0 where w0: "start_tor_process env c (emit (Print (Trying c)) w) = (Inr (), w0)"
    and p0: "printed (trace w0) = printed (trace (emit (Print (Trying c)) w))"
    using start_summary [OF st, of "emit (Print (Trying c)) w"] by metis
  let ?w1 = "elapse env c w0"
  have p1: "printed (trace ?w1) = printed (trace (emit (Print (Trying c)) w))"
    using p0 by (simp add: elapse_fields)
  show ?case
  proof (cases "wait_for_tor env c")
    case False
    then have step: "rotation_loop env url (c # cs) w
                       = rotation_loop env url cs (emit (Print NotReady) ?w1)"
      using w0 by simp
    show ?thesis
      unfolding step
      using Cons.IH [OF cs, of "emit (Print NotReady) ?w1"] p1
      by (simp add: emit_fields trace_readings)
  next
    case True
    with f have pr: "probe_returns env c" and ff: "isl (fetcher env c url)"
      by (auto simp: candidate_fails_def fails_readiness_def fails_fetch_def)
    obtain w2 where w2: "test_tor_connection env c ?w1 = (Inr (), w2)"
      and p2: "Succeeded \<in> set (printed (trace w2)) \<longleftrightarrow> Succeeded \<in> set (printed (trace ?w1))"
      using probe_summary [OF pr, of ?w1] by metis
    obtain e where e: "fetcher env c url = Inl e"
      using ff by (cases "fetcher env c url") simp_all
    have step: "rotation_loop env url (c # cs) w
                  = rotation_loop env url cs
                      (emit (Print (FailedVia c e)) (emit (Fetch url) w2))"
      using w0 w2 e True by simp
    show ?thesis
      unfolding step
      using Cons.IH [OF cs, of "emit (Print (FailedVia c e)) (emit (Fetch url) w2)"] p1 p2
      by (simp add: emit_fields trace_readings)
  qed
qed

text \<open>
  Claim C2, as the code has it. When every candidate fails, by the readiness timeout or by
  an error of the fetcher, \<^verbatim>\<open>download_video\<close> returns normally, with the value it returns
  after a successful fetch; what tells the two apart is what it prints: its last action is to
  print the final failure, and it does not print the success line.
\<close>

theorem exhausted_candidates_return_normally:
  assumes "ensure_ffmpeg env = Inr ffmpeg_path"
    and "list_all (candidate_fails env url) SAFE_COUNTRIES"
  shows "fst (download_video env url w) = Inr ()
    \<and> last (trace (snd (download_video env url w))) = Print AllFailed
    \<and> (Succeeded \<in> set (printed (trace (snd (download_video env url w))))
         \<longleftrightarrow> Succeeded \<in> set (printed (trace w)))"
  using rotation_all_fail [OF assms(2), of w] assms(1)
  by (simp add: download_video_def)

lemma blocked_fails: "list_all (candidate_fails blocked ''u'') SAFE_COUNTRIES"
  by (simp add: candidate_fails_def fails_fetch_def probe_returns_def starts_def
      blocked_def healthy_def SAFE_COUNTRIES_def)

lemma blocked_ffmpeg: "ensure_ffmpeg blocked = Inr ''ffmpeg-latest/bin/ffmpeg.exe''"
  by (simp add: blocked_def healthy_def)

theorem exhausted_candidates_return_normally_witness:
  "ensure_ffmpeg blocked = Inr ''ffmpeg-latest/bin/ffmpeg.exe''
   \<and> list_all (candidate_fails blocked ''u'') SAFE_COUNTRIES
   \<and> fst (download_video blocked ''u'' idle) = Inr ()
   \<and> last (trace (snd (download_video blocked ''u'' idle))) = Print AllFailed
   \<and> Succeeded \<notin> set (printed (trace (snd (download_video blocked ''u'' idle))))"
proof -
  have i: "trace idle = []" by (simp add: idle_def)
  from exhausted_candidates_return_normally [OF blocked_ffmpeg blocked_fails, of idle] i
    blocked_ffmpeg blocked_fails
  show ?thesis by simp
qed

lemma healthy_run:
  "download_video healthy ''u'' idle =
     (Inr (), \<lparr>tor_process = Some 0, torrc_path = Some 0, tor_started_by_us = True,
               running = {0}, files = {0}, next_pid = Suc 0, next_tmp = Suc 0,
               trace = [Print (Trying ''se''), WriteTorrc 0 ''se'', Launch 0 0, Probe,
                        Print (TorIP ''192.0.2.1'' ''True''), Fetch ''u'',
                        Print Succeeded]\<rparr>)"
  by (simp add: download_video_def SAFE_COUNTRIES_def start_tor_process_def Let_def
      test_tor_connection_def healthy_def terminate_tor_process_def stop_process_def
      remove_torrc_def emit_def elapse_def idle_def)

text \<open>
  A run in which the fetcher fails through every country returns what a successful run
  returns.
\<close>

theorem failure_result_counterexample:
  "list_all (candidate_fails blocked ''u'') SAFE_COUNTRIES
   \<and> last (printed (trace (snd (download_video healthy ''u'' idle)))) = Succeeded
   \<and> fst (download_video blocked ''u'' idle) = fst (download_video healthy ''u'' idle)"
proof -
  have "fst (download_video blocked ''u'' idle) = Inr ()"
    using rotation_all_fail [OF blocked_fails, of idle] blocked_ffmpeg
    by (simp add: download_video_def)
  then show ?thesis
    using blocked_fails by (simp add: healthy_run)
qed

text \<open>
  Claim C1, where the code departs from it. The first candidate becomes ready and the
  request of the identity probe raises: the exception leaves \<^verbatim>\<open>download_video\<close>, the
  fetcher is not called for this candidate nor for any other, and the program ends.
\<close>

theorem probe_failure_aborts_run:
  "wait_for_tor probe_down ''se''
   \<and> fst (download_video probe_down ''u'' idle) = Inl RequestError
   \<and> fetched (trace (snd (download_video probe_down ''u'' idle))) = []
   \<and> trace (snd (main_program probe_down ''u'' idle))
       = [Print (Trying ''se''), WriteTorrc 0 ''se'', Launch 0 0, Probe,
          Terminate 0, Remove 0]"
  by (simp add: main_program_def download_video_def SAFE_COUNTRIES_def
      start_tor_process_def Let_def test_tor_connection_def probe_down_def healthy_def
      terminate_tor_process_def stop_process_def remove_torrc_def emit_def elapse_def
      idle_def)

end
